theory Spec2Isabelle
  imports Complex_Main
begin

section \<open>Free surface calculator: the embedding\<close>

text \<open>
  The module \<^verbatim>\<open>modules/FreeSurfaceCalculator.py\<close> has one class with two methods,
  \<^verbatim>\<open>_calculate\<close> and \<^verbatim>\<open>writeCsvOutput\<close>. Floating-point samples are modelled by the
  real numbers they denote (finite values only, no NaN). The code compares samples with
  the constant 0.5 and hands two of them to \<^verbatim>\<open>np.interp\<close>; the comparisons are exact on
  floats, so the control flow of the model is the control flow of the code.

  Exceptions are values of type \<open>error\<close>. The first six constructors are the Python
  exceptions the code can raise. \<open>NoCrossingFound\<close> and \<open>InvalidInput\<close> are the error
  kinds the specification names; no path of the source raises them, and they are part
  of the type only so that a result can be compared with them.
\<close>

datatype error =
    IndexError
  | UnboundLocalError
  | TypeError
  | ValueError
  | IOError
  | NotADirectoryError
  | NoCrossingFound
  | InvalidInput

subsection \<open>Array reads\<close>

text \<open>
  \<^verbatim>\<open>alpha[k]\<close> on a one-dimensional numpy array, for an index \<open>k \<ge> 0\<close> (the code only
  builds indices \<open>i\<close> and \<open>i+1\<close> from \<^verbatim>\<open>range\<close>): an index beyond the last element
  raises IndexError.
\<close>

definition getitem :: "real list \<Rightarrow> nat \<Rightarrow> error + real" where
  "getitem a k = (if k < length a then Inr (a ! k) else Inl IndexError)"

subsection \<open>The scan for the free surface (lines 95 to 97)\<close>

text \<open>
  \<^verbatim>\<open>
  for i in range(alpha.size):
      if alpha[i] > 0.5 and alpha[i+1] < 0.5:
          break
  \<close>
  The loop runs over the list \<open>range(alpha.size)\<close>. The loop variable \<open>i\<close> is a local
  of \<^verbatim>\<open>_calculate\<close> and keeps its value after the loop (and from one directory to the
  next); it is unbound (\<open>None\<close>) until the first iteration assigns it. \<^verbatim>\<open>and\<close> is
  short-circuit: \<^verbatim>\<open>alpha[i+1]\<close> is read only when \<^verbatim>\<open>alpha[i] > 0.5\<close>. The model also
  records how the loop was left, which the code does not observe.
\<close>

datatype loop_exit = Broke | Exhausted

fun scan_loop :: "real list \<Rightarrow> nat list \<Rightarrow> nat option \<Rightarrow> error + (loop_exit \<times> nat option)" where
  "scan_loop alpha [] i = Inr (Exhausted, i)"
| "scan_loop alpha (k # ks) i =
     (case getitem alpha k of
        Inl e \<Rightarrow> Inl e
      | Inr a \<Rightarrow>
          if a > 0.5 then
            (case getitem alpha (k + 1) of
               Inl e \<Rightarrow> Inl e
             | Inr b \<Rightarrow> if b < 0.5 then Inr (Broke, Some k) else scan_loop alpha ks (Some k))
          else scan_loop alpha ks (Some k))"

definition scan :: "real list \<Rightarrow> nat option \<Rightarrow> error + (loop_exit \<times> nat option)" where
  "scan alpha i = scan_loop alpha [0..<length alpha] i"

subsection \<open>Interpolation (line 100)\<close>

text \<open>
  \<^verbatim>\<open>ys = np.interp(0.5, [alpha[i], alpha[i+1]], [y[i], y[i+1]])\<close>
  The library routine is a parameter \<open>interp\<close> of the model. The arguments are
  evaluated left to right, so the reads of \<open>alpha\<close> come before the reads of \<open>y\<close>;
  reading the unbound \<open>i\<close> raises UnboundLocalError.
\<close>

type_synonym interp_fn = "real \<Rightarrow> real list \<Rightarrow> real list \<Rightarrow> error + real"

definition interpolate_at :: "interp_fn \<Rightarrow> real list \<Rightarrow> real list \<Rightarrow> nat option \<Rightarrow> error + real" where
  "interpolate_at interp y alpha i =
     (case i of
        None \<Rightarrow> Inl UnboundLocalError
      | Some k \<Rightarrow>
          (case getitem alpha k of Inl e \<Rightarrow> Inl e | Inr a0 \<Rightarrow>
          (case getitem alpha (k + 1) of Inl e \<Rightarrow> Inl e | Inr a1 \<Rightarrow>
          (case getitem y k of Inl e \<Rightarrow> Inl e | Inr y0 \<Rightarrow>
          (case getitem y (k + 1) of Inl e \<Rightarrow> Inl e | Inr y1 \<Rightarrow>
             interp 0.5 [a0, a1] [y0, y1])))))"

text \<open>Lines 95 to 100 together: the new value of \<open>i\<close> and the height \<open>ys\<close>.\<close>

definition find_free_surface ::
  "interp_fn \<Rightarrow> real list \<Rightarrow> real list \<Rightarrow> nat option \<Rightarrow> error + (nat option \<times> real)" where
  "find_free_surface interp y alpha i =
     (case scan alpha i of
        Inl e \<Rightarrow> Inl e
      | Inr (ex, i') \<Rightarrow>
          (case interpolate_at interp y alpha i' of
             Inl e \<Rightarrow> Inl e
           | Inr ys \<Rightarrow> Inr (i', ys)))"

subsection \<open>numpy's interpolation routine\<close>

text \<open>
  \<open>np_interp\<close> models \<^verbatim>\<open>numpy.interp(x, xp, fp)\<close> with the default \<^verbatim>\<open>left\<close>, \<^verbatim>\<open>right\<close>
  and \<^verbatim>\<open>period\<close>, after numpy's documentation and its C routine \<^verbatim>\<open>arr_interp\<close>
  (numpy 1.10 and later). The documentation: \<^verbatim>\<open>xp\<close> must be increasing, which is not
  checked; \<^verbatim>\<open>right\<close> is the value returned for \<^verbatim>\<open>x > xp[-1]\<close> and defaults to
  \<^verbatim>\<open>fp[-1]\<close>; \<^verbatim>\<open>left\<close> is the value returned for \<^verbatim>\<open>x < xp[0]\<close> and defaults to
  \<^verbatim>\<open>fp[0]\<close>; ValueError is raised when \<^verbatim>\<open>xp\<close> is empty or \<^verbatim>\<open>xp\<close> and \<^verbatim>\<open>fp\<close>
  differ in length. The routine tests \<^verbatim>\<open>x > xp[-1]\<close> first, then \<^verbatim>\<open>x < xp[0]\<close>, then
  looks for the largest \<open>j\<close> with \<^verbatim>\<open>xp[1..j] <= x\<close> by linear search (up to four
  points; bisection beyond, with the same result on increasing \<^verbatim>\<open>xp\<close>) and
  interpolates between the points \<open>j\<close> and \<open>j+1\<close>. The code calls it with two points.
\<close>

definition np_interp :: interp_fn where
  "np_interp x xp fp =
     (let n = length xp in
      if n = 0 \<or> length fp \<noteq> n then Inl ValueError
      else if x > xp ! (n - 1) then Inr (fp ! (n - 1))
      else if x < xp ! 0 then Inr (fp ! 0)
      else
        (let j = length (takeWhile (\<lambda>v. v \<le> x) (tl xp)) in
         if j = n - 1 then Inr (fp ! j)
         else if xp ! j = x then Inr (fp ! j)
         else Inr ((fp ! (j + 1) - fp ! j) / (xp ! (j + 1) - xp ! j) * (x - xp ! j) + fp ! j)))"

subsection \<open>Choosing and loading the data file (lines 79 to 92)\<close>

text \<open>
  \<^verbatim>\<open>
  fileName = None
  for file in files:
      if file.endswith('.xy') and not file.startswith('.'):
          fileName = file
          break
  \<close>
\<close>

definition endswith :: "string \<Rightarrow> string \<Rightarrow> bool" where
  "endswith s suf = (length suf \<le> length s \<and> drop (length s - length suf) s = suf)"

definition startswith :: "string \<Rightarrow> string \<Rightarrow> bool" where
  "startswith s pre = (take (length pre) s = pre)"

fun select_file :: "string list \<Rightarrow> string option" where
  "select_file [] = None"
| "select_file (file # files) =
     (if endswith file ''.xy'' \<and> \<not> startswith file ''.'' then Some file
      else select_file files)"

text \<open>
  \<^verbatim>\<open>
  data = np.loadtxt(os.path.join(dir, fileName))
  y = data[:,0]
  alpha = data[:,1]
  \<close>
  A data file is given by its numeric rows. \<open>loadtxt\<close> models \<^verbatim>\<open>numpy.loadtxt\<close> with
  its default \<^verbatim>\<open>ndmin=0\<close>, after numpy's documentation: rows of different lengths
  raise ValueError, and axes of length one are squeezed away, so that a file of one
  row or of one column loads as a one-dimensional array (an empty file loads as an
  empty one-dimensional array). The slice \<^verbatim>\<open>data[:,k]\<close> needs two dimensions and a
  column \<open>k\<close>; numpy raises IndexError otherwise.
\<close>

datatype ndarray = Arr0 real | Arr1 "real list" | Arr2 "real list list"

definition loadtxt :: "real list list \<Rightarrow> error + ndarray" where
  "loadtxt rows =
     (case rows of
        [] \<Rightarrow> Inr (Arr1 [])
      | r # rs \<Rightarrow>
          if list_ex (\<lambda>r'. length r' \<noteq> length r) rs then Inl ValueError
          else if rs = [] then
            (case r of [v] \<Rightarrow> Inr (Arr0 v) | _ \<Rightarrow> Inr (Arr1 r))
          else if length r = 1 then Inr (Arr1 (map hd rows))
          else Inr (Arr2 rows))"

definition column :: "ndarray \<Rightarrow> nat \<Rightarrow> error + real list" where
  "column a k =
     (case a of
        Arr2 rows \<Rightarrow>
          (if list_all (\<lambda>r. k < length r) rows then Inr (map (\<lambda>r. r ! k) rows)
           else Inl IndexError)
      | _ \<Rightarrow> Inl IndexError)"

definition load_columns :: "real list list \<Rightarrow> error + (real list \<times> real list)" where
  "load_columns rows =
     (case loadtxt rows of
        Inl e \<Rightarrow> Inl e
      | Inr d \<Rightarrow>
          (case column d 0 of
             Inl e \<Rightarrow> Inl e
           | Inr y \<Rightarrow>
               (case column d 1 of
                  Inl e \<Rightarrow> Inl e
                | Inr alpha \<Rightarrow> Inr (y, alpha))))"

subsection \<open>The file system\<close>

text \<open>
  The code reads the file system three times (\<^verbatim>\<open>glob.glob\<close> in line 74,
  \<^verbatim>\<open>os.listdir\<close> in line 79, \<^verbatim>\<open>np.loadtxt\<close> in line 90) and changes it once
  (\<^verbatim>\<open>open(outputCsvFile, 'w')\<close> in line 116). In the model a directory has an
  identity, a number. \<open>dir_of\<close> resolves a directory path to it, as the operating
  system does from the current directory (\<open>None\<close> when the path names no directory),
  and \<open>entries\<close> is the listing of a directory in the order of \<^verbatim>\<open>os.listdir\<close>. An
  entry is a subdirectory, a data file given by its numeric rows, or some other file.
  Where a newly created name appears in a listing is up to the file system: \<open>slot\<close>
  gives the position. \<open>can_open\<close> says whether a path may be opened for writing.
\<close>

datatype node = Subdir nat | DataFile "real list list" | OtherFile

record world =
  dir_of :: "string \<Rightarrow> nat option"
  entries :: "nat \<Rightarrow> (string \<times> node) list"
  slot :: "nat \<Rightarrow> string \<Rightarrow> nat"
  can_open :: "string \<Rightarrow> bool"

text \<open>
  \<^verbatim>\<open>os.path.basename\<close> is the part of a path after its last slash. \<open>dir_part\<close> is the
  directory in which the last component of a path is looked up: the path up to its
  last slash, or the current directory when it has none.
\<close>

definition basename :: "string \<Rightarrow> string" where
  "basename p = rev (takeWhile (\<lambda>c. c \<noteq> CHR ''/'') (rev p))"

definition dir_part :: "string \<Rightarrow> string" where
  "dir_part p =
     (if CHR ''/'' \<in> set p then rev (dropWhile (\<lambda>c. c \<noteq> CHR ''/'') (rev p)) else ''.'')"


definition glob_head :: "string \<Rightarrow> string" where
  "glob_head p =
     (let q = rev (dropWhile (\<lambda>c. c = CHR ''/'') (rev p)) in if q = [] then p else q)"

definition glob_dir :: "string \<Rightarrow> string" where
  "glob_dir p = (if glob_head p = [] then ''.'' else glob_head p)"

definition join :: "string \<Rightarrow> string \<Rightarrow> string" where
  "join a b = (if a = [] \<or> last a = CHR ''/'' then a @ b else a @ ''/'' @ b)"

definition matches_pattern :: "string \<Rightarrow> bool" where
  "matches_pattern name = (case name of [] \<Rightarrow> False | c # cs \<Rightarrow> c \<in> set ''0123456789'')"

definition glob_dirs :: "world \<Rightarrow> string \<Rightarrow> (string \<times> node) list" where
  "glob_dirs w p =
     (case dir_of w (glob_dir p) of
        None \<Rightarrow> []
      | Some d \<Rightarrow>
          map (\<lambda>e. (join (glob_head p) (fst e), snd e))
            (filter (\<lambda>e. matches_pattern (fst e)) (entries w d)))"

text \<open>
  \<^verbatim>\<open>open(outputCsvFile, 'w')\<close> creates the file, or empties it when it exists, in the
  directory of its path. It raises IOError when that directory does not exist, when
  the name is a directory, or when the file may not be opened for writing. A file
  that exists keeps its place in the listing. The file written is never read back by
  the code (its name ends in \<open>.csv\<close>, not in \<open>.xy\<close>), so the model keeps it as
  some other file.
\<close>

definition relabel :: "string \<Rightarrow> (string \<times> node) list \<Rightarrow> (string \<times> node) list" where
  "relabel t xs = map (\<lambda>e. if fst e = t then (t, OtherFile) else e) xs"

definition insert_at :: "nat \<Rightarrow> 'a \<Rightarrow> 'a list \<Rightarrow> 'a list" where
  "insert_at k x xs = take k xs @ x # drop k xs"

definition open_for_writing :: "world \<Rightarrow> string \<Rightarrow> error + world" where
  "open_for_writing w f =
     (case dir_of w (dir_part f) of
        None \<Rightarrow> Inl IOError
      | Some d \<Rightarrow>
          if \<not> can_open w f then Inl IOError
          else
            (case map_of (entries w d) (basename f) of
               None \<Rightarrow>
                 Inr (w\<lparr>entries := (entries w)
                   (d := insert_at (slot w d (basename f)) (basename f, OtherFile) (entries w d))\<rparr>)
             | Some (Subdir k) \<Rightarrow> Inl IOError
             | Some (DataFile rows) \<Rightarrow>
                 Inr (w\<lparr>entries := (entries w)(d := relabel (basename f) (entries w d))\<rparr>)
             | Some OtherFile \<Rightarrow>
                 Inr (w\<lparr>entries := (entries w)(d := relabel (basename f) (entries w d))\<rparr>)))"

subsection \<open>The method \<^verbatim>\<open>_calculate\<close>\<close>

text \<open>
  Lines 90 to 100 for one data file: load the two columns, scan, interpolate.
\<close>

definition extract_surface ::
  "interp_fn \<Rightarrow> real list list \<Rightarrow> nat option \<Rightarrow> error + (nat option \<times> real)" where
  "extract_surface interp rows i =
     (case load_columns rows of
        Inl e \<Rightarrow> Inl e
      | Inr (y, alpha) \<Rightarrow> find_free_surface interp y alpha i)"

text \<open>
  The body of the loop over the directories, lines 79 to 103, for one match of the
  pattern. \<^verbatim>\<open>os.listdir\<close> raises NotADirectoryError on a match that is not a
  directory. With no file chosen, \<^verbatim>\<open>os.path.join(dir, None)\<close> raises TypeError.
  \<^verbatim>\<open>np.loadtxt\<close> raises ValueError on a file that is not numeric rows and IOError on
  a directory. The chosen name comes from the listing, so its entry is always found;
  the last branch only makes the lookup total.
\<close>

definition process_dir ::
  "world \<Rightarrow> interp_fn \<Rightarrow> string \<times> node \<Rightarrow> nat option
     \<Rightarrow> error + (nat option \<times> (string \<times> real))" where
  "process_dir w interp d i =
     (case snd d of
        Subdir k \<Rightarrow>
          (case select_file (map fst (entries w k)) of
             None \<Rightarrow> Inl TypeError
           | Some fileName \<Rightarrow>
               (case map_of (entries w k) fileName of
                  Some (DataFile rows) \<Rightarrow>
                    (case extract_surface interp rows i of
                       Inl e \<Rightarrow> Inl e
                     | Inr (i', ys) \<Rightarrow> Inr (i', (basename (fst d), ys)))
                | Some OtherFile \<Rightarrow> Inl ValueError
                | Some (Subdir s) \<Rightarrow> Inl IOError
                | None \<Rightarrow> Inl IOError))
      | DataFile rows \<Rightarrow> Inl NotADirectoryError
      | OtherFile \<Rightarrow> Inl NotADirectoryError)"

text \<open>
  The instance: \<^verbatim>\<open>self._parentDir\<close> and \<^verbatim>\<open>self._data\<close>. The rows appended before an
  exception stay in the instance, so the loop returns the list together with the
  exception, if any.
\<close>

record calculator =
  parentDir :: string
  data :: "(string \<times> real) list"

definition init :: "string \<Rightarrow> calculator" where
  "init p = \<lparr>parentDir = p, data = []\<rparr>"

fun calculate_loop ::
  "world \<Rightarrow> interp_fn \<Rightarrow> (string \<times> node) list \<Rightarrow> nat option \<Rightarrow> (string \<times> real) list
     \<Rightarrow> (string \<times> real) list \<times> error option" where
  "calculate_loop w interp [] i acc = (acc, None)"
| "calculate_loop w interp (d # dirs) i acc =
     (case process_dir w interp d i of
        Inl e \<Rightarrow> (acc, Some e)
      | Inr (i', row) \<Rightarrow> calculate_loop w interp dirs i' (acc @ [row]))"

definition calculate :: "world \<Rightarrow> interp_fn \<Rightarrow> calculator \<Rightarrow> calculator \<times> error option" where
  "calculate w interp self =
     (case calculate_loop w interp (glob_dirs w (parentDir self)) None (data self) of
        (rows, r) \<Rightarrow> (self\<lparr>data := rows\<rparr>, r))"

subsection \<open>The method \<^verbatim>\<open>writeCsvOutput\<close>\<close>

text \<open>
  \<^verbatim>\<open>
  if not outputCsvFile[-4:] == '.csv':
      outputCsvFile += '.csv'
  output = open(outputCsvFile, 'w')
  for row in self._data:
      output.write('{}, {}\n'.format(*row))
  \<close>
  The slice \<^verbatim>\<open>[-4:]\<close> is the last four characters, or the whole string when it is
  shorter. The text that \<^verbatim>\<open>format\<close> gives a floating-point value is a parameter
  \<open>fmt\<close>. The method returns nothing; the model returns the instance, the file
  system after the call and the file written, as its name and content.
\<close>

definition csv_name :: "string \<Rightarrow> string" where
  "csv_name outputCsvFile =
     (if \<not> drop (length outputCsvFile - 4) outputCsvFile = ''.csv''
      then outputCsvFile @ ''.csv'' else outputCsvFile)"

fun write_rows :: "(real \<Rightarrow> string) \<Rightarrow> (string \<times> real) list \<Rightarrow> string \<Rightarrow> string" where
  "write_rows fmt [] output = output"
| "write_rows fmt (row # rows) output =
     write_rows fmt rows (output @ fst row @ '', '' @ fmt (snd row) @ [CHR 0x0A])"

definition writeCsvOutput ::
  "world \<Rightarrow> interp_fn \<Rightarrow> (real \<Rightarrow> string) \<Rightarrow> calculator \<Rightarrow> string
     \<Rightarrow> calculator \<times> world \<times> (error + string \<times> string)" where
  "writeCsvOutput w interp fmt self outputCsvFile =
     (case calculate w interp self of
        (self', Some e) \<Rightarrow> (self', w, Inl e)
      | (self', None) \<Rightarrow>
          (case open_for_writing w (csv_name outputCsvFile) of
             Inl e \<Rightarrow> (self', w, Inl e)
           | Inr w' \<Rightarrow>
               (self', w', Inr (csv_name outputCsvFile, write_rows fmt (data self') []))))"

subsection \<open>Vocabulary of the properties\<close>

text \<open>
  A strict descending crossing of the threshold at the adjacent pair \<open>(j, j+1)\<close>.
\<close>

definition crossing_at :: "real list \<Rightarrow> nat \<Rightarrow> bool" where
  "crossing_at alpha j = (Suc j < length alpha \<and> alpha ! j > 0.5 \<and> alpha ! Suc j < 0.5)"


text \<open>
  A small dataset for the concrete instances. The current directory (number 0) holds
  two timestep directories and a text file; the first timestep directory holds a
  hidden file beside its data file. A new name is listed first, and every file can be
  opened for writing. \<open>example_world_out\<close> is the same file system with one more
  file \<open>out.csv\<close> in the current directory, \<open>example_world_again\<close> has
  \<open>again.csv\<close> as well, and \<open>example_world_digit\<close> is the first file system with
  one more file \<open>0out.csv\<close> in the current directory.
\<close>

definition profile_a :: "real list list" where
  "profile_a = [[0, 0.9], [1, 0.6], [2, 0.4], [3, 0.1]]"

definition profile_b :: "real list list" where
  "profile_b = [[0, 0.9], [1, 0.1]]"

definition example_entries :: "nat \<Rightarrow> (string \<times> node) list" where
  "example_entries d =
     (if d = 0 then [(''0.1'', Subdir 1), (''0.2'', Subdir 2), (''notes.txt'', OtherFile)]
      else if d = 1 then [(''.old.xy'', DataFile [[0, 0.9]]), (''line.xy'', DataFile profile_a)]
      else if d = 2 then [(''line.xy'', DataFile profile_b)]
      else [])"

definition example_world :: world where
  "example_world =
     \<lparr>dir_of = (\<lambda>p. if p = ''.'' then Some 0 else None),
      entries = example_entries,
      slot = (\<lambda>d name. 0),
      can_open = (\<lambda>f. True)\<rparr>"

definition example_world_out :: world where
  "example_world_out =
     example_world\<lparr>entries := example_entries
       (0 := (''out.csv'', OtherFile) # example_entries 0)\<rparr>"

definition example_world_digit :: world where
  "example_world_digit =
     example_world\<lparr>entries := example_entries
       (0 := (''0out.csv'', OtherFile) # example_entries 0)\<rparr>"


definition example_fmt :: "real \<Rightarrow> string" where
  "example_fmt v = (if v = 1 then ''1.0'' else if v = 2 then ''2.0'' else ''?'')"

section \<open>Properties\<close>

subsection \<open>The scan\<close>

lemma scan_loop_step:
  assumes "k < length alpha"
  shows "scan_loop alpha [k..<length alpha] i =
           (if alpha ! k > 0.5 then
              (if Suc k < length alpha then
                 (if alpha ! Suc k < 0.5 then Inr (Broke, Some k)
                  else scan_loop alpha [Suc k..<length alpha] (Some k))
               else Inl IndexError)
            else scan_loop alpha [Suc k..<length alpha] (Some k))"
  using assms by (simp add: upt_conv_Cons getitem_def)

lemma scan_loop_first_crossing:
  assumes "crossing_at alpha j" and "k \<le> j"
    and "\<And>m. k \<le> m \<Longrightarrow> m < j \<Longrightarrow> \<not> crossing_at alpha m"
  shows "scan_loop alpha [k..<length alpha] i = Inr (Broke, Some j)"
  using assms(2,3)
proof (induction "j - k" arbitrary: k i)
  case 0
  then have "k = j" by simp
  with assms(1) show ?case
    by (simp add: scan_loop_step crossing_at_def)
next
  case (Suc d)
  then have lt: "k < j" by simp
  from assms(1) have j: "Suc j < length alpha" by (simp add: crossing_at_def)
  from lt j have k: "k < length alpha" "Suc k < length alpha" by simp_all
  from Suc.prems(2) [of k] lt have nk: "\<not> crossing_at alpha k" by simp
  have rest: "scan_loop alpha [Suc k..<length alpha] (Some k) = Inr (Broke, Some j)"
  proof (rule Suc.hyps(1))
    show "d = j - Suc k" using Suc.hyps(2) by simp
    show "Suc k \<le> j" using lt by simp
    show "\<And>m. Suc k \<le> m \<Longrightarrow> m < j \<Longrightarrow> \<not> crossing_at alpha m"
      using Suc.prems(2) by simp
  qed
  from nk k rest show ?case
    by (simp add: scan_loop_step [OF k(1)] crossing_at_def)
qed

lemma scan_loop_no_crossing:
  assumes "k < length alpha"
    and "\<And>m. k \<le> m \<Longrightarrow> \<not> crossing_at alpha m"
  shows "scan_loop alpha [k..<length alpha] i =
           (if alpha ! (length alpha - 1) > 0.5 then Inl IndexError
            else Inr (Exhausted, Some (length alpha - 1)))"
  using assms
proof (induction "length alpha - k" arbitrary: k i)
  case 0
  then show ?case by simp
next
  case (Suc d)
  show ?case
  proof (cases "Suc k < length alpha")
    case False
    with Suc.prems(1) have "length alpha - 1 = k" "Suc k = length alpha" by simp_all
    with Suc.prems(1) show ?thesis
      by (simp add: scan_loop_step)
  next
    case True
    from Suc.prems(2) [of k] have nk: "\<not> crossing_at alpha k" by simp
    have rest: "scan_loop alpha [Suc k..<length alpha] (Some k) =
           (if alpha ! (length alpha - 1) > 0.5 then Inl IndexError
            else Inr (Exhausted, Some (length alpha - 1)))"
    proof (rule Suc.hyps(1))
      show "d = length alpha - Suc k" using Suc.hyps(2) by simp
      show "Suc k < length alpha" by (rule True)
      show "\<And>m. Suc k \<le> m \<Longrightarrow> \<not> crossing_at alpha m"
        using Suc.prems(2) by simp
    qed
    from nk True rest show ?thesis
      by (simp add: scan_loop_step [OF Suc.prems(1)] crossing_at_def)
  qed
qed

lemma scan_first_crossing:
  assumes "crossing_at alpha j" and "\<And>m. m < j \<Longrightarrow> \<not> crossing_at alpha m"
  shows "scan alpha i = Inr (Broke, Some j)"
  unfolding scan_def using assms by (intro scan_loop_first_crossing) simp_all

lemma scan_no_crossing:
  assumes "alpha \<noteq> []" and "\<And>m. \<not> crossing_at alpha m"
  shows "scan alpha i =
           (if alpha ! (length alpha - 1) > 0.5 then Inl IndexError
            else Inr (Exhausted, Some (length alpha - 1)))"
  unfolding scan_def using assms by (intro scan_loop_no_crossing) simp_all

lemma scan_empty: "scan [] i = Inr (Exhausted, i)"
  by (simp add: scan_def)

lemma scan_loop_Broke_Some: "scan_loop alpha ks i = Inr (Broke, p) \<Longrightarrow> \<exists>j. p = Some j"
  by (induction ks arbitrary: i) (auto split: sum.splits if_splits)

lemma scan_Broke_iff:
  "scan alpha i = Inr (Broke, Some j) \<longleftrightarrow>
     crossing_at alpha j \<and> (\<forall>m<j. \<not> crossing_at alpha m)"
proof
  assume r: "scan alpha i = Inr (Broke, Some j)"
  show "crossing_at alpha j \<and> (\<forall>m<j. \<not> crossing_at alpha m)"
  proof (cases "\<exists>m. crossing_at alpha m")
    case True
    define l where "l = (LEAST m. crossing_at alpha m)"
    from True have cl: "crossing_at alpha l"
      unfolding l_def by (metis LeastI)
    have least: "\<And>m. m < l \<Longrightarrow> \<not> crossing_at alpha m"
      unfolding l_def by (rule not_less_Least)
    from scan_first_crossing [OF cl least] r have "l = j" by simp
    with cl least show ?thesis by simp
  next
    case False
    then have none: "\<And>m. \<not> crossing_at alpha m" by simp
    show ?thesis
    proof (cases "alpha = []")
      case True
      with r show ?thesis by (simp add: scan_empty)
    next
      case False
      from scan_no_crossing [OF False none] r show ?thesis
        by (simp split: if_splits)
    qed
  qed
next
  assume "crossing_at alpha j \<and> (\<forall>m<j. \<not> crossing_at alpha m)"
  then show "scan alpha i = Inr (Broke, Some j)"
    by (intro scan_first_crossing) simp_all
qed

subsection \<open>Scan and interpolation together\<close>

lemma find_free_surface_first_crossing:
  assumes "crossing_at alpha j" and "\<And>m. m < j \<Longrightarrow> \<not> crossing_at alpha m"
    and "Suc j < length y"
  shows "find_free_surface interp y alpha i =
           (case interp 0.5 [alpha ! j, alpha ! Suc j] [y ! j, y ! Suc j] of
              Inl e \<Rightarrow> Inl e
            | Inr v \<Rightarrow> Inr (Some j, v))"
proof -
  from assms(1) have j: "Suc j < length alpha" by (simp add: crossing_at_def)
  from scan_first_crossing [OF assms(1,2)]
  have s: "scan alpha i = Inr (Broke, Some j)" .
  from j assms(3) show ?thesis
    by (simp add: find_free_surface_def s interpolate_at_def getitem_def)
qed

lemma find_free_surface_no_crossing:
  assumes "alpha \<noteq> []" and "\<And>m. \<not> crossing_at alpha m"
  shows "find_free_surface interp y alpha i = Inl IndexError"
proof -
  from assms(1) have n: "length alpha - 1 < length alpha" by simp
  from assms(1) have n1: "\<not> length alpha - 1 + 1 < length alpha" by simp
  show ?thesis
    using n n1
    by (simp add: find_free_surface_def scan_no_crossing [OF assms] interpolate_at_def getitem_def)
qed

subsection \<open>What \<open>np_interp\<close> returns on a descending pair\<close>

text \<open>
  With \<open>x\<close> above the last sample point, \<open>np_interp\<close> returns the last value: this is
  the \<^verbatim>\<open>right\<close> fill value of numpy's routine. On a descending pair
  \<open>x0 > 0.5 > x1\<close> the query 0.5 is above the last point, so no interpolation is done.
\<close>

lemma np_interp_above_last:
  assumes "x1 < x"
  shows "np_interp x [x0, x1] [f0, f1] = Inr f1"
  using assms by (simp add: np_interp_def)

lemma np_interp_ascending_pair:
  assumes "x0 < x" and "x < x1"
  shows "np_interp x [x0, x1] [f0, f1] = Inr ((f1 - f0) / (x1 - x0) * (x - x0) + f0)"
  using assms by (simp add: np_interp_def)

lemma descending_crossing_returns_upper_sample:
  assumes "crossing_at alpha j" and "\<And>m. m < j \<Longrightarrow> \<not> crossing_at alpha m"
    and "Suc j < length y"
  shows "find_free_surface np_interp y alpha i = Inr (Some j, y ! Suc j)"
proof -
  from assms(1) have "alpha ! Suc j < 0.5" by (simp add: crossing_at_def)
  then have "np_interp 0.5 [alpha ! j, alpha ! Suc j] [y ! j, y ! Suc j] = Inr (y ! Suc j)"
    by (rule np_interp_above_last)
  then show ?thesis
    by (simp add: find_free_surface_first_crossing [OF assms])
qed

lemma crossing_at_prefix:
  assumes "Suc m < n" and "n \<le> length alpha"
  shows "crossing_at (take n alpha @ alpha') m = crossing_at alpha m"
  using assms by (simp add: crossing_at_def nth_append)

subsection \<open>Loading the columns\<close>

lemma load_columns_short:
  assumes "length rows < 2"
  shows "load_columns rows = Inl IndexError"
proof (cases rows)
  case Nil
  then show ?thesis by (simp add: load_columns_def loadtxt_def column_def)
next
  case (Cons r rs)
  with assms have "rs = []" by simp
  with Cons show ?thesis
    by (simp add: load_columns_def loadtxt_def column_def split: list.splits)
qed

lemma load_columns_ragged:
  assumes "rows = r # rs" and "list_ex (\<lambda>r'. length r' \<noteq> length r) rs"
  shows "load_columns rows = Inl ValueError"
  using assms by (simp add: load_columns_def loadtxt_def)

lemma load_columns_Inr:
  assumes "load_columns rows = Inr (y, alpha)"
  shows "y = map (\<lambda>r. r ! 0) rows \<and> alpha = map (\<lambda>r. r ! 1) rows \<and> 2 \<le> length rows"
proof (cases rows)
  case Nil
  with assms show ?thesis by (simp add: load_columns_def loadtxt_def column_def)
next
  case (Cons r rs)
  with assms show ?thesis
    by (cases rs) (auto simp: load_columns_def loadtxt_def column_def
        split: if_splits list.splits sum.splits)
qed

subsection \<open>Choosing the file\<close>

lemma endswith_iff: "endswith s suf \<longleftrightarrow> (\<exists>p. s = p @ suf)"
proof
  assume "endswith s suf"
  then have "drop (length s - length suf) s = suf"
    by (simp add: endswith_def)
  then have "s = take (length s - length suf) s @ suf"
    by (metis append_take_drop_id)
  then show "\<exists>p. s = p @ suf" ..
next
  assume "\<exists>p. s = p @ suf"
  then show "endswith s suf" by (auto simp: endswith_def)
qed

lemma startswith_dot_iff: "startswith s ''.'' \<longleftrightarrow> (\<exists>r. s = CHR ''.'' # r)"
  by (cases s) (auto simp: startswith_def)

lemma select_file_Some:
  "select_file files = Some f \<longleftrightarrow>
     (\<exists>before after. files = before @ f # after \<and>
        endswith f ''.xy'' \<and> \<not> startswith f ''.'' \<and>
        (\<forall>g\<in>set before. \<not> (endswith g ''.xy'' \<and> \<not> startswith g ''.'')))"
proof (induction files)
  case Nil
  then show ?case by simp
next
  case (Cons x xs)
  show ?case
  proof (cases "endswith x ''.xy'' \<and> \<not> startswith x ''.''")
    case True
    have "(\<exists>before after. x # xs = before @ f # after \<and>
        endswith f ''.xy'' \<and> \<not> startswith f ''.'' \<and>
        (\<forall>g\<in>set before. \<not> (endswith g ''.xy'' \<and> \<not> startswith g ''.''))) \<longleftrightarrow> x = f"
    proof
      assume "\<exists>before after. x # xs = before @ f # after \<and>
        endswith f ''.xy'' \<and> \<not> startswith f ''.'' \<and>
        (\<forall>g\<in>set before. \<not> (endswith g ''.xy'' \<and> \<not> startswith g ''.''))"
      then obtain before after where s: "x # xs = before @ f # after"
        and b: "\<forall>g\<in>set before. \<not> (endswith g ''.xy'' \<and> \<not> startswith g ''.'')"
        by blast
      show "x = f"
      proof (cases before)
        case Nil
        with s show ?thesis by simp
      next
        case (Cons g gs)
        with s have "g = x" by simp
        with Cons b True show ?thesis by simp
      qed
    next
      assume "x = f"
      with True have "x # xs = [] @ f # xs \<and>
        endswith f ''.xy'' \<and> \<not> startswith f ''.'' \<and>
        (\<forall>g\<in>set []. \<not> (endswith g ''.xy'' \<and> \<not> startswith g ''.''))" by simp
      then show "\<exists>before after. x # xs = before @ f # after \<and>
        endswith f ''.xy'' \<and> \<not> startswith f ''.'' \<and>
        (\<forall>g\<in>set before. \<not> (endswith g ''.xy'' \<and> \<not> startswith g ''.''))" by blast
    qed
    then have eq: "(\<exists>before after. x # xs = before @ f # after \<and>
        endswith f ''.xy'' \<and> \<not> startswith f ''.'' \<and>
        (\<forall>g\<in>set before. \<not> (endswith g ''.xy'' \<and> \<not> startswith g ''.''))) = (x = f)" .
    from True have step: "select_file (x # xs) = Some x" by simp
    show ?thesis by (simp only: step eq option.inject)
  next
    case False
    have "(\<exists>before after. x # xs = before @ f # after \<and>
        endswith f ''.xy'' \<and> \<not> startswith f ''.'' \<and>
        (\<forall>g\<in>set before. \<not> (endswith g ''.xy'' \<and> \<not> startswith g ''.''))) \<longleftrightarrow>
      (\<exists>before after. xs = before @ f # after \<and>
        endswith f ''.xy'' \<and> \<not> startswith f ''.'' \<and>
        (\<forall>g\<in>set before. \<not> (endswith g ''.xy'' \<and> \<not> startswith g ''.'')))"
      (is "?L \<longleftrightarrow> ?R")
    proof
      assume ?L
      then obtain before after where s: "x # xs = before @ f # after"
        and q: "endswith f ''.xy'' \<and> \<not> startswith f ''.''"
        and b: "\<forall>g\<in>set before. \<not> (endswith g ''.xy'' \<and> \<not> startswith g ''.'')"
        by blast
      show ?R
      proof (cases before)
        case Nil
        with s q False show ?thesis by simp
      next
        case (Cons g gs)
        with s have "xs = gs @ f # after" by simp
        moreover from Cons b have "\<forall>g\<in>set gs. \<not> (endswith g ''.xy'' \<and> \<not> startswith g ''.'')"
          by simp
        ultimately show ?thesis using q by blast
      qed
    next
      assume ?R
      then obtain before after where s: "xs = before @ f # after"
        and q: "endswith f ''.xy'' \<and> \<not> startswith f ''.''"
        and b: "\<forall>g\<in>set before. \<not> (endswith g ''.xy'' \<and> \<not> startswith g ''.'')"
        by blast
      from s have "x # xs = (x # before) @ f # after" by simp
      moreover from b False
      have "\<forall>g\<in>set (x # before). \<not> (endswith g ''.xy'' \<and> \<not> startswith g ''.'')"
        by simp
      ultimately show ?L using q by blast
    qed
    then have eq: "?L = ?R" .
    from False have step: "select_file (x # xs) = select_file xs" by auto
    show ?thesis by (simp only: step Cons.IH eq)
  qed
qed

subsection \<open>Writing the rows\<close>

lemma write_rows_concat:
  "write_rows fmt rows out =
     out @ concat (map (\<lambda>row. fst row @ '', '' @ fmt (snd row) @ [CHR 0x0A]) rows)"
  by (induction rows arbitrary: out) simp_all

lemma last_four_iff: "drop (length s - 4) s = ''.csv'' \<longleftrightarrow> (\<exists>p. s = p @ ''.csv'')"
proof
  assume "drop (length s - 4) s = ''.csv''"
  then have "s = take (length s - 4) s @ ''.csv''"
    by (metis append_take_drop_id)
  then show "\<exists>p. s = p @ ''.csv''" ..
next
  assume "\<exists>p. s = p @ ''.csv''"
  then show "drop (length s - 4) s = ''.csv''" by auto
qed

subsection \<open>Accumulating the rows\<close>



subsection \<open>A listing after a file was opened for writing\<close>

lemma insert_at_0: "insert_at 0 x xs = x # xs"
  by (simp add: insert_at_def)

















subsection \<open>The effect of opening a file for writing\<close>








subsection \<open>The run on the example dataset, step by step\<close>

lemma ex_extract1: "extract_surface np_interp profile_a i = Inr (Some 1, 2)"
  by (simp add: profile_a_def extract_surface_def load_columns_def loadtxt_def column_def
      find_free_surface_def scan_def interpolate_at_def getitem_def np_interp_def)

lemma ex_extract2: "extract_surface np_interp profile_b i = Inr (Some 0, 1)"
  by (simp add: profile_b_def extract_surface_def load_columns_def loadtxt_def column_def
      find_free_surface_def scan_def interpolate_at_def getitem_def np_interp_def)

lemma ex_entries:
  "example_entries 1 = [(''.old.xy'', DataFile [[0, 0.9]]), (''line.xy'', DataFile profile_a)]"
  "example_entries 2 = [(''line.xy'', DataFile profile_b)]"
  by (simp_all add: example_entries_def)

lemma ex_worlds_entries:
  "entries example_world k = example_entries k"
  "0 < k \<Longrightarrow> entries example_world_out k = example_entries k"
  "0 < k \<Longrightarrow> entries example_world_digit k = example_entries k"
  by (simp_all add: example_world_def example_world_out_def example_world_digit_def)

lemma ex_dir1:
  assumes "entries w 1 = example_entries 1"
  shows "process_dir w np_interp (''./0.1'', Subdir 1) i = Inr (Some 1, (''0.1'', 2))"
  by (simp add: process_dir_def assms ex_entries ex_extract1 basename_def endswith_def
      startswith_def del: One_nat_def)

lemma ex_dir2:
  assumes "entries w 2 = example_entries 2"
  shows "process_dir w np_interp (''./0.2'', Subdir 2) i = Inr (Some 0, (''0.2'', 1))"
  by (simp add: process_dir_def assms ex_entries ex_extract2 basename_def endswith_def
      startswith_def)

lemma ex_glob:
  "glob_dirs example_world ''.'' = [(''./0.1'', Subdir 1), (''./0.2'', Subdir 2)]"
  by (simp add: glob_dirs_def glob_dir_def glob_head_def join_def matches_pattern_def
      example_world_def example_entries_def)


lemma ex_loop:
  "calculate_loop example_world np_interp (glob_dirs example_world ''.'') None acc =
     (acc @ [(''0.1'', 2), (''0.2'', 1)], None)"
  by (simp add: ex_glob ex_dir1 ex_dir2 ex_worlds_entries del: One_nat_def)

lemma ex_open_out: "open_for_writing example_world ''out.csv'' = Inr example_world_out"
proof -
  have "map_of (example_entries 0) ''out.csv'' = None" by (simp add: example_entries_def)
  then show ?thesis
    by (simp add: open_for_writing_def dir_part_def basename_def insert_at_0
        example_world_def example_world_out_def)
qed



lemma example_run:
  "writeCsvOutput example_world np_interp example_fmt (init ''.'') ''out'' =
     (\<lparr>parentDir = ''.'', data = [(''0.1'', 2), (''0.2'', 1)]\<rparr>, example_world_out,
      Inr (''out.csv'', ''0.1, 2.0'' @ [CHR 0x0A] @ ''0.2, 1.0'' @ [CHR 0x0A]))"
proof -
  have n: "csv_name ''out'' = ''out.csv''" by (simp add: csv_name_def)
  show ?thesis
    by (simp add: writeCsvOutput_def calculate_def init_def ex_loop n ex_open_out example_fmt_def)
qed



section \<open>The claims\<close>

text \<open>
  C1. The claim: on a strict descending crossing at the pair \<open>(i, i+1)\<close> the extractor
  returns the linear interpolation
  \<open>coordinate[i] + (0.5 - fraction[i]) * (coordinate[i+1] - coordinate[i]) /
  (fraction[i+1] - fraction[i])\<close>, which is 1.5 for \<open>coordinate = [0,1,2,3]\<close> and
  \<open>fraction = [0.9,0.6,0.4,0.1]\<close>. The code does not do this. It finds the pair
  \<open>i = 1\<close> and calls \<^verbatim>\<open>np.interp(0.5, [0.6, 0.4], [1, 2])\<close> with the sample points in
  descending order; the query is above the last sample point, and the routine returns
  the last value, \<open>coordinate[i+1] = 2\<close>. The theorem evaluates the code on the
  claim's own example: the result is 2, not 1.5.
\<close>

theorem example_crossing_returns_upper_sample:
  "find_free_surface np_interp [0, 1, 2, 3] [0.9, 0.6, 0.4, 0.1] None = Inr (Some 1, 2) \<and>
   find_free_surface np_interp [0, 1, 2, 3] [0.9, 0.6, 0.4, 0.1] None \<noteq>
     Inr (Some 1, 1 + (0.5 - 0.6) * (2 - 1) / (0.4 - 0.6))"
  by (simp add: find_free_surface_def scan_def interpolate_at_def getitem_def np_interp_def)

text \<open>
  C2. The claim: with no adjacent pair straddling 0.5 the extractor fails with
  NoCrossingFound. The code has no such error kind. With no strict descending pair
  the loop runs to the last index \<open>N-1\<close> and the read of \<open>fraction[N]\<close>, in the loop
  or in line 100, raises IndexError. The theorem is the amended claim: every
  non-empty input without a strict descending pair fails with IndexError, whatever
  the interpolation routine.
\<close>

theorem no_crossing_fails_with_IndexError:
  assumes "alpha \<noteq> []" and "\<forall>j. \<not> crossing_at alpha j"
  shows "find_free_surface interp y alpha i = Inl IndexError"
  using assms by (intro find_free_surface_no_crossing) simp_all

theorem no_crossing_fails_with_IndexError_witness:
  "find_free_surface np_interp [0, 1, 2] [0.1, 0.2, 0.3] None = Inl IndexError"
proof -
  have a: "[0.1, 0.2, 0.3] \<noteq> ([] :: real list)" by simp
  have b: "\<forall>j. \<not> crossing_at [0.1, 0.2, 0.3] j"
    by (simp add: crossing_at_def nth_Cons split: nat.splits)
  show ?thesis using no_crossing_fails_with_IndexError [OF a b] by simp
qed

text \<open>
  The counterexample to C2 as stated: all values above 0.5, and the failure is an
  IndexError, not NoCrossingFound.
\<close>

theorem no_crossing_is_not_NoCrossingFound:
  "find_free_surface np_interp [0, 1] [0.9, 0.8] None = Inl IndexError \<and>
   find_free_surface np_interp [0, 1] [0.9, 0.8] None \<noteq> Inl NoCrossingFound"
  by (simp add: find_free_surface_def scan_def interpolate_at_def getitem_def)

text \<open>
  C3. The claim: the scan never reads past the last element; the loop is bounded to
  \<open>i \<le> N-2\<close>. The code loops over \<^verbatim>\<open>range(alpha.size)\<close>, so \<open>i\<close> reaches \<open>N-1\<close>, and
  when \<open>fraction[N-1] > 0.5\<close> it reads \<open>fraction[N]\<close>. The theorem evaluates the scan
  on \<open>fraction = [0.9, 0.8]\<close>: at \<open>i = 1\<close> the read of index 2 raises IndexError.
\<close>

theorem scan_reads_past_last_element:
  "scan [0.9, 0.8] None = Inl IndexError \<and> getitem [0.9, 0.8] (1 + 1) = Inl IndexError"
  by (simp add: scan_def getitem_def)

text \<open>
  C4. With two or more strict descending pairs only the first one (lowest index) is
  used. The theorem: when \<open>j\<close> is the first strict descending pair, the result is
  the interpolation routine applied to the samples \<open>j\<close> and \<open>j+1\<close> alone, and it does
  not change when everything after the sample \<open>j+1\<close> is replaced, whatever crossings
  the replacement holds.
\<close>

theorem first_crossing_is_used:
  assumes "crossing_at alpha j" and "\<forall>m<j. \<not> crossing_at alpha m"
    and "length y = length alpha"
  shows "find_free_surface interp y alpha i =
           (case interp 0.5 [alpha ! j, alpha ! Suc j] [y ! j, y ! Suc j] of
              Inl e \<Rightarrow> Inl e
            | Inr v \<Rightarrow> Inr (Some j, v)) \<and>
         (\<forall>alpha' y'. find_free_surface interp (take (j + 2) y @ y') (take (j + 2) alpha @ alpha') i =
            find_free_surface interp y alpha i)"
proof -
  from assms(1) have j: "Suc j < length alpha" by (simp add: crossing_at_def)
  with assms(3) have jy: "Suc j < length y" by simp
  from assms(2) have least: "\<And>m. m < j \<Longrightarrow> \<not> crossing_at alpha m" by simp
  note whole = find_free_surface_first_crossing [OF assms(1) least jy]
  have "find_free_surface interp (take (j + 2) y @ y') (take (j + 2) alpha @ alpha') i =
          find_free_surface interp y alpha i" for alpha' y'
  proof -
    let ?a = "take (j + 2) alpha @ alpha'" and ?y = "take (j + 2) y @ y'"
    from j have n: "j + 2 \<le> length alpha" by simp
    have c: "crossing_at ?a j"
      using assms(1) crossing_at_prefix [OF _ n, of j alpha'] by simp
    have l: "\<And>m. m < j \<Longrightarrow> \<not> crossing_at ?a m"
      using least crossing_at_prefix [OF _ n, of _ alpha'] by simp
    have ly: "Suc j < length ?y" using jy by simp
    have pair: "?a ! j = alpha ! j" "?a ! Suc j = alpha ! Suc j"
      "?y ! j = y ! j" "?y ! Suc j = y ! Suc j"
      using j jy by (simp_all add: nth_append)
    have "find_free_surface interp ?y ?a i =
            (case interp 0.5 [?a ! j, ?a ! Suc j] [?y ! j, ?y ! Suc j] of
               Inl e \<Rightarrow> Inl e
             | Inr v \<Rightarrow> Inr (Some j, v))"
      by (rule find_free_surface_first_crossing [OF c l ly])
    also have "\<dots> = find_free_surface interp y alpha i"
      by (simp only: pair whole)
    finally show ?thesis .
  qed
  with whole show ?thesis by simp
qed

theorem first_crossing_is_used_witness:
  "find_free_surface np_interp [0, 1, 2, 3] [0.9, 0.1, 0.9, 0.1] None = Inr (Some 0, 1) \<and>
   find_free_surface np_interp [0, 1, 5] [0.9, 0.1, 0.7] None = Inr (Some 0, 1)"
proof -
  have a: "crossing_at [0.9, 0.1, 0.9, 0.1] 0" by (simp add: crossing_at_def)
  have b: "\<forall>m<0. \<not> crossing_at [0.9, 0.1, 0.9, 0.1] m" by simp
  have c: "length [0, 1, 2, 3 :: real] = length [0.9, 0.1, 0.9, 0.1 :: real]" by simp
  note th = first_crossing_is_used [OF a b c, of np_interp None]
  from th have first:
    "find_free_surface np_interp [0, 1, 2, 3] [0.9, 0.1, 0.9, 0.1] None = Inr (Some 0, 1)"
    by (simp add: np_interp_def)
  from th have
    "find_free_surface np_interp (take (0 + 2) [0, 1, 2, 3] @ [5])
       (take (0 + 2) [0.9, 0.1, 0.9, 0.1] @ [0.7]) None =
     find_free_surface np_interp [0, 1, 2, 3] [0.9, 0.1, 0.9, 0.1] None"
    by blast
  with first show ?thesis by simp
qed

text \<open>
  C5. The scan matches strict descending crossings only: it leaves the loop by
  \<^verbatim>\<open>break\<close> at \<open>j\<close> exactly when \<open>j\<close> is the first pair with
  \<open>fraction[j] > 0.5\<close> and \<open>fraction[j+1] < 0.5\<close>; on an input without such a pair,
  for instance one whose only crossing is ascending, it never breaks.
\<close>

theorem scan_matches_strict_descending_only:
  "(scan alpha i = Inr (Broke, Some j) \<longleftrightarrow>
      crossing_at alpha j \<and> (\<forall>m<j. \<not> crossing_at alpha m)) \<and>
   ((\<forall>m. \<not> crossing_at alpha m) \<longrightarrow> (\<forall>p. scan alpha i \<noteq> Inr (Broke, p)))"
proof (intro conjI impI allI)
  show "scan alpha i = Inr (Broke, Some j) \<longleftrightarrow>
      crossing_at alpha j \<and> (\<forall>m<j. \<not> crossing_at alpha m)"
    by (rule scan_Broke_iff)
next
  fix p
  assume none: "\<forall>m. \<not> crossing_at alpha m"
  show "scan alpha i \<noteq> Inr (Broke, p)"
  proof
    assume r: "scan alpha i = Inr (Broke, p)"
    then obtain k where "p = Some k"
      unfolding scan_def by (blast dest: scan_loop_Broke_Some)
    with r have "crossing_at alpha k" by (simp add: scan_Broke_iff)
    with none show False by simp
  qed
qed

theorem scan_matches_strict_descending_only_witness:
  "scan [0.9, 0.6, 0.4, 0.1] None = Inr (Broke, Some 1) \<and>
   (\<forall>p. scan [0.1, 0.9] None \<noteq> Inr (Broke, p))"
proof -
  have a: "crossing_at [0.9, 0.6, 0.4, 0.1] 1 \<and> (\<forall>m<1. \<not> crossing_at [0.9, 0.6, 0.4, 0.1] m)"
    by (simp add: crossing_at_def)
  have b: "\<forall>m. \<not> crossing_at [0.1, 0.9] m"
    by (simp add: crossing_at_def nth_Cons split: nat.splits)
  from a scan_matches_strict_descending_only [of "[0.9, 0.6, 0.4, 0.1]" None 1]
  have "scan [0.9, 0.6, 0.4, 0.1] None = Inr (Broke, Some 1)" by simp
  moreover from b scan_matches_strict_descending_only [of "[0.1, 0.9]" None]
  have "\<forall>p. scan [0.1, 0.9] None \<noteq> Inr (Broke, p)" by simp
  ultimately show ?thesis by simp
qed

text \<open>
  C6. The claim: sequences that differ in length or have fewer than two elements make
  the extractor fail with InvalidInput before any interpolation. The code has no
  such check and no such error kind. Its two sequences are the columns of one array,
  so they cannot differ in length. A data file with fewer than two rows loads as an
  array that is not two-dimensional, and the slice \<^verbatim>\<open>data[:,0]\<close> of line 91 raises
  IndexError, before the scan and the interpolation. The theorem is the amended
  claim: fewer than two rows fail with IndexError in the load, whatever the
  interpolation routine, and columns that do load have the same length, at least two.
\<close>

theorem short_file_fails_with_IndexError:
  "(length rows < 2 \<longrightarrow>
      load_columns rows = Inl IndexError \<and> extract_surface interp rows i = Inl IndexError) \<and>
   (load_columns rows = Inr (y, alpha) \<longrightarrow> length y = length alpha \<and> 2 \<le> length alpha)"
proof (intro conjI impI)
  assume "length rows < 2"
  then show "load_columns rows = Inl IndexError" by (rule load_columns_short)
  then show "extract_surface interp rows i = Inl IndexError"
    by (simp add: extract_surface_def)
next
  assume "load_columns rows = Inr (y, alpha)"
  then have "y = map (\<lambda>r. r ! 0) rows \<and> alpha = map (\<lambda>r. r ! 1) rows \<and> 2 \<le> length rows"
    by (rule load_columns_Inr)
  then show "length y = length alpha" and "2 \<le> length alpha" by simp_all
qed

theorem short_file_fails_with_IndexError_witness:
  "extract_surface np_interp [[0, 0.9]] (Some 0) = Inl IndexError \<and>
   load_columns [[0, 0.9], [1, 0.1]] = Inr ([0, 1], [0.9, 0.1]) \<and>
   length [0, 1 :: real] = length [0.9, 0.1 :: real]"
proof -
  have a: "length [[0, 0.9 :: real]] < 2" by simp
  have b: "load_columns [[0, 0.9], [1, 0.1]] = Inr ([0, 1], [0.9, 0.1])"
    by (simp add: load_columns_def loadtxt_def column_def)
  from a short_file_fails_with_IndexError [where rows = "[[0, 0.9]]" and interp = np_interp and i = "Some 0"]
  have "extract_surface np_interp [[0, 0.9]] (Some 0) = Inl IndexError" by simp
  moreover from b short_file_fails_with_IndexError [where rows = "[[0, 0.9], [1, 0.1]]" and y = "[0, 1]" and alpha = "[0.9, 0.1]"]
  have "length [0, 1 :: real] = length [0.9, 0.1 :: real]" by blast
  ultimately show ?thesis using b by simp
qed

text \<open>
  The counterexample to C6 as stated: a file of one row fails with IndexError, not
  InvalidInput.
\<close>

theorem short_file_is_not_InvalidInput:
  "extract_surface np_interp [[0, 0.9]] None = Inl IndexError \<and>
   extract_surface np_interp [[0, 0.9]] None \<noteq> Inl InvalidInput"
  by (simp add: extract_surface_def load_columns_def loadtxt_def column_def)

text \<open>
  C7. The claim: when \<open>fraction[i]\<close> equals 0.5 exactly, the extractor returns
  \<open>coordinate[i]\<close>. The comparisons of the scan are strict on both sides, so a sample
  equal to 0.5 belongs to no matching pair. On \<open>coordinate = [0,1,2]\<close> and
  \<open>fraction = [0.9,0.5,0.1]\<close> no pair matches, the loop runs to the end and the read
  of \<open>fraction[3]\<close> raises IndexError; the claim asks for \<open>coordinate[1] = 1\<close>.
\<close>

theorem exact_threshold_sample_fails:
  "find_free_surface np_interp [0, 1, 2] [0.9, 0.5, 0.1] None = Inl IndexError"
  by (simp add: find_free_surface_def scan_def interpolate_at_def getitem_def)

text \<open>
  C8. The writer: the file name gets the extension \<open>.csv\<close> exactly when its last
  four characters are not \<open>.csv\<close>; the content is one line per row of the result
  list, in the order of the list, each the label, a comma and a space, the text of
  the value and a newline, with nothing before the first line; and a successful call
  writes the rows of the instance under that name.
\<close>

theorem writer_emits_rows_in_order:
  "csv_name f = (if (\<exists>p. f = p @ ''.csv'') then f else f @ ''.csv'') \<and>
   write_rows fmt rows [] =
     concat (map (\<lambda>row. fst row @ '', '' @ fmt (snd row) @ [CHR 0x0A]) rows) \<and>
   (writeCsvOutput w interp fmt self f = (self', w', Inr (name, content)) \<longrightarrow>
      name = csv_name f \<and> content = write_rows fmt (data self') [])"
proof (intro conjI impI)
  show "csv_name f = (if (\<exists>p. f = p @ ''.csv'') then f else f @ ''.csv'')"
    by (simp only: csv_name_def last_four_iff) simp
  show "write_rows fmt rows [] =
     concat (map (\<lambda>row. fst row @ '', '' @ fmt (snd row) @ [CHR 0x0A]) rows)"
    by (simp add: write_rows_concat)
next
  assume r: "writeCsvOutput w interp fmt self f = (self', w', Inr (name, content))"
  obtain s e where c: "calculate w interp self = (s, e)" by (cases "calculate w interp self")
  with r show "name = csv_name f" and "content = write_rows fmt (data self') []"
    by (auto simp: writeCsvOutput_def split: option.splits sum.splits)
qed

theorem writer_emits_rows_in_order_witness:
  "writeCsvOutput example_world np_interp example_fmt (init ''.'') ''out'' =
     (\<lparr>parentDir = ''.'', data = [(''0.1'', 2), (''0.2'', 1)]\<rparr>, example_world_out,
      Inr (''out.csv'', ''0.1, 2.0'' @ [CHR 0x0A] @ ''0.2, 1.0'' @ [CHR 0x0A])) \<and>
   ''out.csv'' = csv_name ''out'' \<and>
   ''0.1, 2.0'' @ [CHR 0x0A] @ ''0.2, 1.0'' @ [CHR 0x0A] =
     write_rows example_fmt (data \<lparr>parentDir = ''.'', data = [(''0.1'', 2), (''0.2'', 1)]\<rparr>) []"
proof -
  note th = writer_emits_rows_in_order [where w = example_world and interp = np_interp
      and fmt = example_fmt and self = "init ''.''" and f = "''out''"
      and self' = "\<lparr>parentDir = ''.'', data = [(''0.1'', 2), (''0.2'', 1)]\<rparr>"
      and w' = example_world_out and name = "''out.csv''"
      and content = "''0.1, 2.0'' @ [CHR 0x0A] @ ''0.2, 1.0'' @ [CHR 0x0A]"]
  from th have "writeCsvOutput example_world np_interp example_fmt (init ''.'') ''out'' =
     (\<lparr>parentDir = ''.'', data = [(''0.1'', 2), (''0.2'', 1)]\<rparr>, example_world_out,
      Inr (''out.csv'', ''0.1, 2.0'' @ [CHR 0x0A] @ ''0.2, 1.0'' @ [CHR 0x0A])) \<longrightarrow>
    ''out.csv'' = csv_name ''out'' \<and>
    ''0.1, 2.0'' @ [CHR 0x0A] @ ''0.2, 1.0'' @ [CHR 0x0A] =
     write_rows example_fmt (data \<lparr>parentDir = ''.'', data = [(''0.1'', 2), (''0.2'', 1)]\<rparr>) []"
    by (rule conjunct2 [THEN conjunct2])
  from this example_run have "''out.csv'' = csv_name ''out'' \<and>
    ''0.1, 2.0'' @ [CHR 0x0A] @ ''0.2, 1.0'' @ [CHR 0x0A] =
     write_rows example_fmt (data \<lparr>parentDir = ''.'', data = [(''0.1'', 2), (''0.2'', 1)]\<rparr>) []"
    by (rule mp)
  with example_run show ?thesis by (rule conjI)
qed





text \<open>
  C10. The data file of a timestep directory: the chosen name is the first in
  listing order that ends in \<open>.xy\<close> and does not begin with a dot. A name that
  begins with a dot is never chosen, and every name before the chosen one fails the
  test.
\<close>

theorem select_file_first_visible_xy:
  "select_file files = Some f \<longleftrightarrow>
     (\<exists>before after. files = before @ f # after \<and>
        (\<exists>p. f = p @ ''.xy'') \<and> (\<forall>r. f \<noteq> CHR ''.'' # r) \<and>
        (\<forall>g\<in>set before. \<not> ((\<exists>p. g = p @ ''.xy'') \<and> (\<forall>r. g \<noteq> CHR ''.'' # r))))"
  by (simp add: select_file_Some endswith_iff startswith_dot_iff)

theorem select_file_first_visible_xy_witness:
  "select_file [''.a.xy'', ''b.txt'', ''c.xy'', ''d.xy''] = Some ''c.xy'' \<and>
   select_file [''.a.xy'', ''b.txt'', ''c.xy'', ''d.xy''] \<noteq> Some ''.a.xy''"
proof -
  let ?files = "[''.a.xy'', ''b.txt'', ''c.xy'', ''d.xy'']"
  have "?files = [''.a.xy'', ''b.txt''] @ ''c.xy'' # [''d.xy''] \<and>
        (\<exists>p. ''c.xy'' = p @ ''.xy'') \<and> (\<forall>r. ''c.xy'' \<noteq> CHR ''.'' # r) \<and>
        (\<forall>g\<in>set [''.a.xy'', ''b.txt''].
           \<not> ((\<exists>p. g = p @ ''.xy'') \<and> (\<forall>r. g \<noteq> CHR ''.'' # r)))"
    by (simp add: append_eq_Cons_conv Cons_eq_append_conv)
  then have "\<exists>before after. ?files = before @ ''c.xy'' # after \<and>
        (\<exists>p. ''c.xy'' = p @ ''.xy'') \<and> (\<forall>r. ''c.xy'' \<noteq> CHR ''.'' # r) \<and>
        (\<forall>g\<in>set before. \<not> ((\<exists>p. g = p @ ''.xy'') \<and> (\<forall>r. g \<noteq> CHR ''.'' # r)))"
    by blast
  then have c: "select_file ?files = Some ''c.xy''"
    by (rule select_file_first_visible_xy [THEN iffD2])
  then show ?thesis by simp
qed

end
